theory Spec2Isabelle
  imports Main "HOL-Library.AList"
begin

section \<open>The room coordinator of app/durableObjects/ChatRoom.server.ts\<close>

text \<open>
  The class \<^verbatim>\<open>ChatRoom\<close> is a Durable Object: one instance per room, with a
  key-value store, one alarm, and the set of web-socket connections that the
  \<^verbatim>\<open>partyserver\<close> base class keeps. Its methods are embedded as functions that take
  the state of the instance and return the new one.

  Conventions of the embedding.
  \<^item> The store holds four kinds of key: \<^verbatim>\<open>roomCode\<close>, \<^verbatim>\<open>meetingId\<close>,
    \<^verbatim>\<open>session-<id>\<close> and \<^verbatim>\<open>heartbeat-<id>\<close>. It is a record with one field per kind;
    the last two are association lists from the connection id (the key without its
    prefix) to the value. \<^verbatim>\<open>storage.list({prefix: 'session-'})\<close> is the list of
    sessions; the order in which the store lists its keys is not modelled.
  \<^item> \<^verbatim>\<open>getConnections()\<close> is the list \<open>conns\<close> of the channels that are open. A
    channel that is closed leaves the list at once. Every message a channel accepts
    and every close of a channel is appended to the log \<open>trace\<close>, every POST to the
    lifecycle service to \<open>reports\<close>.
  \<^item> \<^verbatim>\<open>connection.send\<close> throws on some channels (the socket is gone); that is the
    flag \<open>sendFails\<close> of the channel.
  \<^item> An exception is a value: a method that can throw returns \<open>Some\<close> exception and
    the state reached when it was thrown.
  \<^item> The asynchronous methods run to completion one after the other; a call that
    the source does not await (\<^verbatim>\<open>userLeftNotification\<close>, \<^verbatim>\<open>endMeeting\<close> and
    \<^verbatim>\<open>broadcastRoomState\<close> inside \<^verbatim>\<open>cleanupOldConnections\<close>) runs where it is made.
  \<^item> \<^verbatim>\<open>Date.now()\<close>, the replies of the lifecycle service, \<^verbatim>\<open>crypto.randomUUID()\<close>
    are read from an environment \<open>env\<close> that is fixed during one handler.
  \<^item> Logging (\<^verbatim>\<open>log\<close>, \<^verbatim>\<open>console.warn\<close>) has no effect on the state and is left out.
\<close>

subsection \<open>Messages and stored records\<close>

record user_tracks =
  audioEnabled :: bool
  audioUnavailable :: bool
  videoEnabled :: bool
  screenShareEnabled :: bool

text \<open>The type \<^verbatim>\<open>User\<close>; the field \<^verbatim>\<open>id\<close> is \<open>uid\<close> here.\<close>

record user =
  uid :: string
  name :: string
  joined :: bool
  raisedHand :: bool
  speaking :: bool
  tracks :: user_tracks

datatype server_message =
    RoomState string "user list"
  | ErrorMessage string
  | DirectMessageFrom string string
  | MuteMic
  | UserLeftNotification string

datatype client_message =
    UserLeft
  | UserUpdate user
  | CallsApiHistoryEntry string string
  | DirectMessage string string
  | MuteUser string
  | PartyserverPing
  | Heartbeat
  | UnknownType

text \<open>
  A \<^verbatim>\<open>WSMessage\<close> is binary or a string; \<^verbatim>\<open>JSON.parse\<close> of the string gives a
  client message or throws (\<open>Text None\<close>).
\<close>

datatype ws_message = Binary | Text "client_message option"

datatype exn = SendError | TypeError | SyntaxError | AssertionError

fun stack :: "exn \<Rightarrow> string" where
  "stack SendError = ''Error: send failed''"
| "stack TypeError = ''TypeError''"
| "stack SyntaxError = ''SyntaxError''"
| "stack AssertionError = ''AssertionError''"

subsection \<open>The state of one room\<close>

record storage =
  roomCode :: "string option"
  meetingId :: "string option"
  sessions :: "(string \<times> user) list"
  heartbeats :: "(string \<times> int) list"

record connection =
  conn_id :: string
  sendFails :: bool

text \<open>
  What the room does to its channels, in the order in which it does it: a message that a
  channel accepted, and the close of a channel with its code and reason.
\<close>

datatype event = Sent string server_message | Closed string nat string

record state =
  store :: storage
  alarmTime :: "int option"
  conns :: "connection list"
  trace :: "event list"
  reports :: "(string \<times> int \<times> string) list"

text \<open>The messages delivered and the closes, read off the trace.\<close>

fun sentOf :: "event list \<Rightarrow> (string \<times> server_message) list" where
  "sentOf [] = []"
| "sentOf (Sent i m # es) = (i, m) # sentOf es"
| "sentOf (Closed i code reason # es) = sentOf es"

fun closedOf :: "event list \<Rightarrow> (string \<times> nat \<times> string) list" where
  "closedOf [] = []"
| "closedOf (Sent i m # es) = closedOf es"
| "closedOf (Closed i code reason # es) = (i, code, reason) # closedOf es"

definition sent :: "state \<Rightarrow> (string \<times> server_message) list" where
  "sent s = sentOf (trace s)"

definition closed :: "state \<Rightarrow> (string \<times> nat \<times> string) list" where
  "closed s = closedOf (trace s)"

text \<open>The body of a reply of the lifecycle service, \<^verbatim>\<open>{data: {roomId, peakUsers, status}}\<close>.\<close>

record room_data =
  data_roomId :: string
  data_peakUsers :: int
  data_status :: string

datatype response = Response (ok: bool) (json: "room_data option")

record env =
  now :: int
  lifecycle :: "string \<Rightarrow> response"
  postOk :: bool
  randomUUID :: string

record request =
  path :: "string list"
  username :: "string option"

text \<open>The value of \<^verbatim>\<open>ended\<close> in what \<^verbatim>\<open>getMeeting\<close> returns is tested against \<^verbatim>\<open>null\<close>.\<close>

datatype jsval = JNull | JBool bool

record meeting =
  roomId :: string
  ended :: jsval
  peakUserCount :: int
  meeting_id :: string

definition alarmInterval :: int where
  "alarmInterval = 15000"

text \<open>JavaScript's truth value of a \<^verbatim>\<open>string | undefined\<close>: the empty string is false.\<close>

definition truthy :: "string option \<Rightarrow> bool" where
  "truthy v = (case v of None \<Rightarrow> False | Some x \<Rightarrow> x \<noteq> [])"

subsection \<open>Store and channel primitives\<close>

definition deleteAll :: storage where
  "deleteAll = \<lparr>roomCode = None, meetingId = None, sessions = [], heartbeats = []\<rparr>"

definition getSession :: "string \<Rightarrow> state \<Rightarrow> user option" where
  "getSession i s = map_of (sessions (store s)) i"

definition putSession :: "string \<Rightarrow> user \<Rightarrow> state \<Rightarrow> state" where
  "putSession i u s = s\<lparr>store := (store s)\<lparr>sessions := AList.update i u (sessions (store s))\<rparr>\<rparr>"

definition deleteSession :: "string \<Rightarrow> state \<Rightarrow> state" where
  "deleteSession i s = s\<lparr>store := (store s)\<lparr>sessions := AList.delete i (sessions (store s))\<rparr>\<rparr>"

definition getHeartbeat :: "string \<Rightarrow> state \<Rightarrow> int option" where
  "getHeartbeat i s = map_of (heartbeats (store s)) i"

definition putHeartbeat :: "string \<Rightarrow> int \<Rightarrow> state \<Rightarrow> state" where
  "putHeartbeat i t s = s\<lparr>store := (store s)\<lparr>heartbeats := AList.update i t (heartbeats (store s))\<rparr>\<rparr>"

definition deleteHeartbeat :: "string \<Rightarrow> state \<Rightarrow> state" where
  "deleteHeartbeat i s = s\<lparr>store := (store s)\<lparr>heartbeats := AList.delete i (heartbeats (store s))\<rparr>\<rparr>"

definition getMeetingId :: "state \<Rightarrow> string option" where
  "getMeetingId s = meetingId (store s)"

definition getRoomCode :: "state \<Rightarrow> string option" where
  "getRoomCode s = roomCode (store s)"

definition getUsers :: "state \<Rightarrow> (string \<times> user) list" where
  "getUsers s = sessions (store s)"

text \<open>\<^verbatim>\<open>connection.send(JSON.stringify(message))\<close>, also behind \<^verbatim>\<open>sendMessage\<close>.\<close>

definition sendMessage :: "connection \<Rightarrow> server_message \<Rightarrow> state \<Rightarrow> exn option \<times> state" where
  "sendMessage c m s =
     (if sendFails c then (Some SendError, s)
      else (None, s\<lparr>trace := trace s @ [Sent (conn_id c) m]\<rparr>))"

text \<open>\<^verbatim>\<open>connection.close(code, reason)\<close>; closing a channel that is not open does nothing.\<close>

definition close :: "connection \<Rightarrow> nat \<Rightarrow> string \<Rightarrow> state \<Rightarrow> state" where
  "close c code reason s =
     (if conn_id c \<in> set (map conn_id (conns s))
      then s\<lparr>conns := filter (\<lambda>d. conn_id d \<noteq> conn_id c) (conns s),
              trace := trace s @ [Closed (conn_id c) code reason]\<rparr>
      else s)"

subsection \<open>The lifecycle service\<close>

definition isRoomValid :: "env \<Rightarrow> string option \<Rightarrow> response" where
  "isRoomValid e rc =
     (case rc of
        None \<Rightarrow> Response False None
      | Some code \<Rightarrow> if code = [] then Response False None else lifecycle e code)"

definition updateMeetingStats :: "env \<Rightarrow> string \<Rightarrow> int \<Rightarrow> string \<Rightarrow> state \<Rightarrow> bool \<times> state" where
  "updateMeetingStats e room peak st s =
     (postOk e, s\<lparr>reports := reports s @ [(room, peak, st)]\<rparr>)"

fun extractRoomCode :: "string list \<Rightarrow> string option" where
  "extractRoomCode [] = None"
| "extractRoomCode (x # xs) =
     (if x = ''rooms'' then (case xs of [] \<Rightarrow> None | y # _ \<Rightarrow> Some y)
      else extractRoomCode xs)"

definition getMeeting :: "env \<Rightarrow> string \<Rightarrow> state \<Rightarrow> meeting option" where
  "getMeeting e mid s =
     (case getRoomCode s of
        None \<Rightarrow> None
      | Some code \<Rightarrow>
          if code = [] then None
          else let resp = isRoomValid e (Some code) in
            if \<not> ok resp then None
            else (case json resp of
                None \<Rightarrow> None
              | Some d \<Rightarrow>
                  Some \<lparr>roomId = code,
                        ended = JBool (data_status d \<in> set [''done'', ''canceled'', ''no_show'']),
                        peakUserCount = data_peakUsers d,
                        meeting_id = mid\<rparr>))"

definition createMeeting :: "env \<Rightarrow> state \<Rightarrow> meeting option \<times> state" where
  "createMeeting e s =
     (let s1 = s\<lparr>store := (store s)\<lparr>meetingId := Some (randomUUID e)\<rparr>\<rparr>
      in (getMeeting e (randomUUID e) s1, s1))"

subsection \<open>Broadcast\<close>

text \<open>
  The loop of \<^verbatim>\<open>broadcastMessage\<close> over the open channels, with the flag
  \<^verbatim>\<open>didSomeoneQuit\<close>.
\<close>

fun fanOut :: "server_message \<Rightarrow> connection option \<Rightarrow> connection list \<Rightarrow> bool \<times> state \<Rightarrow> bool \<times> state" where
  "fanOut m ex [] (q, s) = (q, s)"
| "fanOut m ex (c # cs) (q, s) =
     (if ex = Some c then fanOut m ex cs (q, s)
      else (case sendMessage c m s of
          (None, s1) \<Rightarrow> fanOut m ex cs (q, s1)
        | (Some err, s1) \<Rightarrow>
            fanOut m ex cs
              (True, deleteSession (conn_id c) (close c 1011 ''Failed to broadcast state'' s1))))"

text \<open>
  \<^verbatim>\<open>broadcastMessage(message, excludedConnection?)\<close> and \<^verbatim>\<open>broadcastRoomState()\<close>
  call each other. A round of the loop that met a failing channel has closed it, so
  fewer channels are open when the roster is broadcast again: the recursion ends.
\<close>

function broadcastMessage :: "server_message \<Rightarrow> connection option \<Rightarrow> state \<Rightarrow> state"
  and broadcastRoomState :: "state \<Rightarrow> state" where
  "broadcastMessage m ex s =
     (case fanOut m ex (conns s) (False, s) of
        (didSomeoneQuit, s1) \<Rightarrow> if didSomeoneQuit then broadcastRoomState s1 else s1)"
| "broadcastRoomState s =
     (case getMeetingId s of
        None \<Rightarrow> broadcastMessage (ErrorMessage ''No meetingId found, closing connection'') None s
      | Some mid \<Rightarrow>
          if mid = [] then broadcastMessage (ErrorMessage ''No meetingId found, closing connection'') None s
          else broadcastMessage (RoomState mid (map snd (getUsers s))) None s)"
  by pat_completeness auto
termination
proof -
  have closing: "length (conns (deleteSession (conn_id c) (close c code r s))) \<le> length (conns s)"
    for c code r s
    by (simp add: deleteSession_def close_def)
  have closed_now: "length (conns (deleteSession (conn_id c) (close c code r s))) < length (conns s)"
    if "c \<in> set (conns s)" for c code r s
    using that by (auto simp: deleteSession_def close_def intro!: length_filter_less)
  have mono: "length (conns (snd (fanOut m ex cs (q, s)))) \<le> length (conns s)"
    for m ex cs q s
  proof (induction cs arbitrary: q s)
    case Nil
    show ?case by simp
  next
    case (Cons c cs)
    show ?case
      using Cons.IH[of q s] Cons.IH[of q "s\<lparr>trace := trace s @ [Sent (conn_id c) m]\<rparr>"]
        Cons.IH[of True "deleteSession (conn_id c) (close c 1011 ''Failed to broadcast state'' s)"]
        closing[of c 1011 "''Failed to broadcast state''" s]
      by (auto simp: sendMessage_def)
  qed
  have shrinks: "length (conns (snd (fanOut m ex cs (q, s)))) < length (conns s)"
    if "fst (fanOut m ex cs (q, s))" "\<not> q" "set cs \<subseteq> set (conns s)" for m ex cs q s
    using that
  proof (induction cs arbitrary: s)
    case Nil
    then show ?case by simp
  next
    case (Cons c cs)
    show ?case
    proof (cases "ex \<noteq> Some c \<and> sendFails c")
      case True
      let ?s1 = "deleteSession (conn_id c) (close c 1011 ''Failed to broadcast state'' s)"
      have "length (conns (snd (fanOut m ex cs (True, ?s1)))) \<le> length (conns ?s1)"
        by (rule mono)
      also have "\<dots> < length (conns s)"
        using Cons.prems(3) by (intro closed_now) simp
      finally show ?thesis using True by (simp add: sendMessage_def)
    next
      case False
      then have "ex = Some c \<or> \<not> sendFails c" by blast
      then show ?thesis
      proof
        assume "ex = Some c"
        with Cons show ?thesis by simp
      next
        assume ok: "\<not> sendFails c"
        show ?thesis
        proof (cases "ex = Some c")
          case True
          with Cons show ?thesis by simp
        next
          case ne: False
          let ?s1 = "s\<lparr>trace := trace s @ [Sent (conn_id c) m]\<rparr>"
          have "length (conns (snd (fanOut m ex cs (q, ?s1)))) < length (conns ?s1)"
            using Cons.prems ok ne by (intro Cons.IH) (simp_all add: sendMessage_def)
          with ok ne show ?thesis by (simp add: sendMessage_def)
        qed
      qed
    qed
  qed
  show ?thesis
  proof (relation "measure (\<lambda>x. case x of Inl (m, ex, s) \<Rightarrow> 2 * length (conns s) + 1
                                          | Inr s \<Rightarrow> 2 * length (conns s) + 2)")
    show "wf (measure (\<lambda>x. case x of Inl (m, ex, s) \<Rightarrow> 2 * length (conns s) + 1
                                          | Inr s \<Rightarrow> 2 * length (conns s) + 2))"
      by simp
  next
    fix m ex s x didSomeoneQuit s1
    assume f: "(didSomeoneQuit, s1) = fanOut m ex (conns s) (False, s)" and q: didSomeoneQuit
    have "length (conns (snd (fanOut m ex (conns s) (False, s)))) < length (conns s)"
      using f[symmetric] q by (intro shrinks) simp_all
    with f[symmetric]
    show "(Inr s1, Inl (m, ex, s)) \<in> measure (\<lambda>x. case x of Inl (m, ex, s) \<Rightarrow> 2 * length (conns s) + 1
                                          | Inr s \<Rightarrow> 2 * length (conns s) + 2)"
      by simp
  qed simp_all
qed

declare broadcastMessage.simps [simp del] broadcastRoomState.simps [simp del]

definition userLeftNotification :: "string \<Rightarrow> state \<Rightarrow> state" where
  "userLeftNotification i s = broadcastMessage (UserLeftNotification i) None s"

subsection \<open>Meeting lifecycle and the liveness sweep\<close>

definition endMeeting :: "env \<Rightarrow> string \<Rightarrow> state \<Rightarrow> state" where
  "endMeeting e mid s =
     (let rc = getRoomCode s;
          s1 = s\<lparr>store := deleteAll\<rparr>
      in case rc of
           None \<Rightarrow> s1
         | Some code \<Rightarrow>
             if code = [] then s1
             else let meeting = getMeeting e mid s1
                  in snd (updateMeetingStats e code
                            (case meeting of None \<Rightarrow> 0 | Some m \<Rightarrow> peakUserCount m) ''done'' s1))"

text \<open>
  The loop of \<^verbatim>\<open>cleanupOldConnections\<close> over the users listed before it; \<open>connections\<close>
  is the copy of the open channels taken before the loop, the number is
  \<^verbatim>\<open>removedUsers\<close>.
\<close>

fun sweep :: "env \<Rightarrow> connection list \<Rightarrow> (string \<times> user) list \<Rightarrow> nat \<times> state \<Rightarrow> nat \<times> state" where
  "sweep e connections [] (removedUsers, s) = (removedUsers, s)"
| "sweep e connections ((connectionId, u) # users) (removedUsers, s) =
     (if (case getHeartbeat connectionId s of
            None \<Rightarrow> True
          | Some heartbeat \<Rightarrow> heartbeat + alarmInterval < now e)
      then
        let s1 = deleteSession connectionId s;
            s2 = userLeftNotification connectionId s1;
            s3 = (case find (\<lambda>c. conn_id c = connectionId) connections of
                    None \<Rightarrow> s2
                  | Some c \<Rightarrow> close c 1011 [] s2)
        in sweep e connections users (Suc removedUsers, s3)
      else sweep e connections users (removedUsers, s))"

definition cleanupOldConnections :: "env \<Rightarrow> state \<Rightarrow> nat \<times> state" where
  "cleanupOldConnections e s =
     (let mid = getMeetingId s in
      case sweep e (conns s) (getUsers s) (0, s) of
        (removedUsers, s1) \<Rightarrow>
          let activeUserCount = length (getUsers s1)
          in case mid of
               None \<Rightarrow>
                 if removedUsers > 0 then (activeUserCount, broadcastRoomState s1)
                 else (activeUserCount, s1)
             | Some m \<Rightarrow>
                 if m \<noteq> [] \<and> activeUserCount = 0 then (activeUserCount, endMeeting e m s1)
                 else if removedUsers > 0 then (activeUserCount, broadcastRoomState s1)
                 else (activeUserCount, s1))"

definition alarm :: "env \<Rightarrow> state \<Rightarrow> state" where
  "alarm e s =
     (case cleanupOldConnections e s of
        (activeUserCount, s1) \<Rightarrow>
          let s2 = broadcastRoomState s1
          in if activeUserCount \<noteq> 0 then s2\<lparr>alarmTime := Some (now e + alarmInterval)\<rparr> else s2)"

definition trackPeakUserCount :: "env \<Rightarrow> state \<Rightarrow> string option \<times> state" where
  "trackPeakUserCount e s =
     (let mid = getMeetingId s in
      case (case mid of
              None \<Rightarrow> createMeeting e s
            | Some m \<Rightarrow> if m = [] then createMeeting e s else (getMeeting e m s, s)) of
        (meeting, s1) \<Rightarrow>
          (case cleanupOldConnections e s1 of
             (n, s2) \<Rightarrow>
               (case meeting of
                  None \<Rightarrow> (None, s2)
                | Some mt \<Rightarrow>
                    let previousCount = peakUserCount mt;
                        userCount = int (length (getUsers s2))
                    in if userCount > previousCount \<or> ended mt \<noteq> JNull
                       then (mid, snd (updateMeetingStats e (roomId mt) (peakUserCount mt) ''started'' s2))
                       else (mid, s2))))"

subsection \<open>Connection lifecycle\<close>

definition defaultUser :: "string \<Rightarrow> string \<Rightarrow> user" where
  "defaultUser i n =
     \<lparr>uid = i, name = n, joined = False, raisedHand = False, speaking = False,
      tracks = \<lparr>audioEnabled = False, audioUnavailable = False,
                videoEnabled = False, screenShareEnabled = False\<rparr>\<rparr>"

text \<open>
  \<^verbatim>\<open>onConnect(connection, ctx)\<close>. The request gives the segments of its path and the
  name that \<^verbatim>\<open>getUsername\<close> finds in it; \<^verbatim>\<open>assertNonNullable\<close> throws when there
  is none.
\<close>

definition onConnect :: "env \<Rightarrow> connection \<Rightarrow> request \<Rightarrow> state \<Rightarrow> exn option \<times> state" where
  "onConnect e connection req s =
     (let rc = extractRoomCode (path req);
          s1 = (if truthy rc \<and> \<not> truthy (getRoomCode s)
                then s\<lparr>store := (store s)\<lparr>roomCode := rc\<rparr>\<rparr> else s);
          validRoom = isRoomValid e rc
      in if \<not> ok validRoom then
           (case sendMessage connection (ErrorMessage ''Room invalid'') s1 of
              (Some err, s2) \<Rightarrow> (Some err, s2)
            | (None, s2) \<Rightarrow> (None, close connection 4004 ''Meeting room no longer active'' s2))
         else
           let s2 = (case alarmTime s1 of
                       None \<Rightarrow> s1\<lparr>alarmTime := Some (now e + alarmInterval)\<rparr>
                     | Some t \<Rightarrow> if t = 0 then s1\<lparr>alarmTime := Some (now e + alarmInterval)\<rparr> else s1)
           in case username req of
                None \<Rightarrow> (Some AssertionError, s2)
              | Some n \<Rightarrow>
                  let u = (case getSession (conn_id connection) s2 of
                             None \<Rightarrow> defaultUser (conn_id connection) n
                           | Some stored \<Rightarrow> stored);
                      s3 = putSession (conn_id connection) u s2;
                      s4 = putHeartbeat (conn_id connection) (now e) s3;
                      s5 = snd (trackPeakUserCount e s4)
                  in (None, broadcastRoomState s5))"

text \<open>The \<^verbatim>\<open>switch\<close> of \<^verbatim>\<open>onMessage\<close>, inside its \<^verbatim>\<open>try\<close>.\<close>

fun handleMessage :: "env \<Rightarrow> connection \<Rightarrow> client_message \<Rightarrow> state \<Rightarrow> exn option \<times> state" where
  "handleMessage e connection UserLeft s =
     (let s1 = close connection 1000 ''User left'' s;
          s2 = deleteSession (conn_id connection) s1;
          s3 = userLeftNotification (conn_id connection) s2;
          s4 = deleteHeartbeat (conn_id connection) s3
      in (None, broadcastRoomState s4))"
| "handleMessage e connection (UserUpdate u) s =
     (None, broadcastRoomState (putSession (conn_id connection) u s))"
| "handleMessage e connection (CallsApiHistoryEntry entry sessionId) s = (None, s)"
| "handleMessage e connection (DirectMessage to message) s =
     (let fromUser = getSession (conn_id connection) s
      in case find (\<lambda>c. conn_id c = to) (conns s) of
           Some otherConnection \<Rightarrow>
             (case fromUser of
                None \<Rightarrow> (Some TypeError, s)
              | Some f \<Rightarrow> sendMessage otherConnection (DirectMessageFrom (name f) message) s)
         | None \<Rightarrow>
             (case fromUser of
                None \<Rightarrow> (Some TypeError, s)
              | Some f \<Rightarrow> (None, s)))"
| "handleMessage e connection (MuteUser i) s =
     (let u = getSession (conn_id connection) s
      in case find (\<lambda>c. conn_id c = i) (conns s) of
           Some otherConnection \<Rightarrow>
             (case getSession i s of
                None \<Rightarrow> (Some TypeError, s)
              | Some otherUser \<Rightarrow>
                  let s1 = putSession i
                             (otherUser\<lparr>tracks := (tracks otherUser)\<lparr>audioEnabled := False\<rparr>\<rparr>) s
                  in (case sendMessage otherConnection MuteMic s1 of
                        (Some err, s2) \<Rightarrow> (Some err, s2)
                      | (None, s2) \<Rightarrow> (None, broadcastRoomState s2)))
         | None \<Rightarrow>
             (case u of
                None \<Rightarrow> (Some TypeError, s)
              | Some sender \<Rightarrow> (None, s)))"
| "handleMessage e connection PartyserverPing s = (None, s)"
| "handleMessage e connection Heartbeat s =
     (None, putHeartbeat (conn_id connection) (now e) s)"
| "handleMessage e connection UnknownType s = (Some AssertionError, s)"

text \<open>
  \<^verbatim>\<open>onMessage(connection, message)\<close>: what the \<^verbatim>\<open>switch\<close> throws is caught and
  reported to the sender; that last send is outside the \<^verbatim>\<open>try\<close>.
\<close>

definition onMessage :: "env \<Rightarrow> connection \<Rightarrow> ws_message \<Rightarrow> state \<Rightarrow> exn option \<times> state" where
  "onMessage e connection message s =
     (case message of
        Binary \<Rightarrow> (None, s)
      | Text None \<Rightarrow> sendMessage connection (ErrorMessage (stack SyntaxError)) s
      | Text (Some d) \<Rightarrow>
          (case handleMessage e connection d s of
             (None, s1) \<Rightarrow> (None, s1)
           | (Some err, s1) \<Rightarrow> sendMessage connection (ErrorMessage (stack err)) s1))"

text \<open>
  \<^verbatim>\<open>onStart()\<close>: a room whose stored code is no longer valid is torn down.
  \<^verbatim>\<open>onClose\<close> only logs; \<^verbatim>\<open>onError\<close> broadcasts the roster.
\<close>

definition onStart :: "env \<Rightarrow> state \<Rightarrow> state" where
  "onStart e s =
     (case getRoomCode s of
        None \<Rightarrow> s
      | Some code \<Rightarrow>
          if code = [] then s
          else if \<not> ok (isRoomValid e (Some code)) then
            (let s1 = s\<lparr>alarmTime := None\<rparr>;
                 s2 = fold (\<lambda>c. close c 4004 ''Room invalid'') (conns s1) s1
             in s2\<lparr>store := deleteAll\<rparr>)
          else s)"

definition onClose :: "connection \<Rightarrow> nat \<Rightarrow> string \<Rightarrow> bool \<Rightarrow> state \<Rightarrow> state" where
  "onClose connection code reason wasClean s = s"

definition onError :: "connection \<Rightarrow> state \<Rightarrow> state" where
  "onError connection s = broadcastRoomState s"

subsection \<open>Notions used in the statements\<close>

text \<open>The messages that the channels accepted between two states.\<close>

definition delivered :: "state \<Rightarrow> state \<Rightarrow> (string \<times> server_message) list" where
  "delivered s s' = drop (length (sent s)) (sent s')"

text \<open>The message that \<^verbatim>\<open>broadcastRoomState\<close> builds in a state.\<close>

definition roomStateMessage :: "state \<Rightarrow> server_message" where
  "roomStateMessage s =
     (case getMeetingId s of
        None \<Rightarrow> ErrorMessage ''No meetingId found, closing connection''
      | Some mid \<Rightarrow>
          if mid = [] then ErrorMessage ''No meetingId found, closing connection''
          else RoomState mid (map snd (getUsers s)))"

text \<open>
  What a broadcast, a close and the removal of a session can do to a state: the alarm,
  the reports, the room code, the meeting id and the heartbeats stay, sessions and open
  channels can only go, and messages are only added.
\<close>

definition extends :: "state \<Rightarrow> state \<Rightarrow> bool" where
  "extends s s' =
     (alarmTime s' = alarmTime s \<and> reports s' = reports s \<and>
      meetingId (store s') = meetingId (store s) \<and>
      roomCode (store s') = roomCode (store s) \<and>
      heartbeats (store s') = heartbeats (store s) \<and>
      (\<exists>P. sessions (store s') = filter P (sessions (store s))) \<and>
      (\<exists>P. conns s' = filter P (conns s)) \<and>
      (\<exists>l. trace s' = trace s @ l))"

text \<open>
  A room used in the examples: room code \<^verbatim>\<open>abc123\<close>, which the lifecycle service
  knows with the given peak and status, and a meeting \<^verbatim>\<open>m1\<close>.
\<close>

definition serviceReply :: "int \<Rightarrow> string \<Rightarrow> response" where
  "serviceReply peak st =
     Response True (Some \<lparr>data_roomId = ''abc123'', data_peakUsers = peak, data_status = st\<rparr>)"

definition exampleEnv :: "int \<Rightarrow> int \<Rightarrow> string \<Rightarrow> env" where
  "exampleEnv t peak st =
     \<lparr>now = t,
      lifecycle = (\<lambda>code. if code = ''abc123'' then serviceReply peak st else Response False None),
      postOk = True,
      randomUUID = ''uuid-1''\<rparr>"

definition exampleRoom :: "(string \<times> user) list \<Rightarrow> (string \<times> int) list \<Rightarrow> connection list \<Rightarrow> state" where
  "exampleRoom us hs cs =
     \<lparr>store = \<lparr>roomCode = Some ''abc123'', meetingId = Some ''m1'', sessions = us, heartbeats = hs\<rparr>,
      alarmTime = None, conns = cs, trace = [], reports = []\<rparr>"

definition newRoom :: "connection list \<Rightarrow> state" where
  "newRoom cs =
     \<lparr>store = deleteAll, alarmTime = None, conns = cs, trace = [], reports = []\<rparr>"

definition withoutMeeting :: "state \<Rightarrow> state" where
  "withoutMeeting s = s\<lparr>store := (store s)\<lparr>meetingId := None\<rparr>\<rparr>"

definition withoutRoomCode :: "state \<Rightarrow> state" where
  "withoutRoomCode s = s\<lparr>store := (store s)\<lparr>roomCode := None\<rparr>\<rparr>"

definition alice :: user where
  "alice = defaultUser ''c1'' ''Alice''"

definition bob :: user where
  "bob = defaultUser ''c2'' ''Bob''"

definition channel :: "string \<Rightarrow> connection" where
  "channel i = \<lparr>conn_id = i, sendFails = False\<rparr>"

definition brokenChannel :: "string \<Rightarrow> connection" where
  "brokenChannel i = \<lparr>conn_id = i, sendFails = True\<rparr>"

section \<open>Properties of the broadcast and of the sweep\<close>

lemma sentOf_append [simp]: "sentOf (xs @ ys) = sentOf xs @ sentOf ys"
  by (induction xs rule: sentOf.induct) simp_all

lemma closedOf_append [simp]: "closedOf (xs @ ys) = closedOf xs @ closedOf ys"
  by (induction xs rule: closedOf.induct) simp_all

lemma sentOf_map_Sent [simp]: "sentOf (map (\<lambda>c. Sent (f c) m) cs) = map (\<lambda>c. (f c, m)) cs"
  by (induction cs) simp_all

lemma closedOf_map_Sent [simp]: "closedOf (map (\<lambda>c. Sent (f c) m) cs) = []"
  by (induction cs) simp_all

lemma filter_absent_id: "i \<notin> set (map f xs) \<Longrightarrow> filter (\<lambda>d. f d \<noteq> i) xs = xs"
  by (induction xs) auto

lemma conns_close:
  "conns (close c code r s) = filter (\<lambda>d. conn_id d \<noteq> conn_id c) (conns s)"
proof (cases "conn_id c \<in> set (map conn_id (conns s))")
  case True
  then show ?thesis by (simp add: close_def)
next
  case False
  then have "filter (\<lambda>d. conn_id d \<noteq> conn_id c) (conns s) = conns s"
    by (rule filter_absent_id)
  with False show ?thesis by (simp add: close_def)
qed

lemma conns_deleteSession: "conns (deleteSession i s) = conns s"
  by (simp add: deleteSession_def)

lemma fanOut_conns:
  "conns (snd (fanOut m ex cs (q, s))) =
     filter (\<lambda>d. conn_id d \<notin> conn_id ` {c \<in> set cs. sendFails c \<and> ex \<noteq> Some c}) (conns s)"
proof (induction cs arbitrary: q s)
  case Nil
  then show ?case by simp
next
  case (Cons c cs)
  show ?case
  proof (cases "ex = Some c")
    case True
    then show ?thesis using Cons.IH[of q s] by (auto intro!: filter_cong)
  next
    case ne: False
    show ?thesis
    proof (cases "sendFails c")
      case True
      then show ?thesis using ne Cons.IH
        by (auto simp: sendMessage_def conns_close conns_deleteSession intro!: filter_cong)
    next
      case False
      then show ?thesis using ne Cons.IH
        by (auto simp: sendMessage_def intro!: filter_cong)
    qed
  qed
qed

lemma fanOut_quit:
  "fst (fanOut m ex cs (q, s)) = (q \<or> (\<exists>c\<in>set cs. sendFails c \<and> ex \<noteq> Some c))"
  by (induction cs arbitrary: q s) (auto simp: sendMessage_def)

lemma extends_refl: "extends s s"
  unfolding extends_def
  by (auto intro: exI[of _ "\<lambda>_. True"])

lemma extends_trans:
  assumes "extends s s1" "extends s1 s2"
  shows "extends s s2"
proof -
  from assms obtain P P' where "sessions (store s2) = filter P' (filter P (sessions (store s)))"
    unfolding extends_def by auto
  then have a: "\<exists>P. sessions (store s2) = filter P (sessions (store s))"
    by (auto simp: filter_filter)
  from assms obtain Q Q' where "conns s2 = filter Q' (filter Q (conns s))"
    unfolding extends_def by auto
  then have b: "\<exists>P. conns s2 = filter P (conns s)"
    by (auto simp: filter_filter)
  from assms obtain l l' where "trace s2 = (trace s @ l) @ l'"
    unfolding extends_def by auto
  then have c: "\<exists>l. trace s2 = trace s @ l" by auto
  from assms a b c show ?thesis unfolding extends_def by simp
qed

lemma extends_delivered:
  assumes "extends s s'"
  shows "sent s' = sent s @ delivered s s'"
proof -
  from assms obtain l where "trace s' = trace s @ l" unfolding extends_def by blast
  then show ?thesis by (simp add: delivered_def sent_def)
qed

lemma delivered_append: "sent s' = sent s @ l \<Longrightarrow> delivered s s' = l"
  unfolding delivered_def by simp

lemma extends_close: "extends s (close c code r s)"
proof -
  have "\<exists>P. conns (close c code r s) = filter P (conns s)"
    using conns_close by blast
  then show ?thesis
    unfolding extends_def
    by (auto simp: close_def intro: exI[of _ "\<lambda>_. True"])
qed

lemma extends_deleteSession: "extends s (deleteSession i s)"
  unfolding extends_def deleteSession_def
  by (auto simp: AList.delete_eq intro: exI[of _ "\<lambda>_. True"])

lemma extends_send: "sendMessage c m s = (r, s') \<Longrightarrow> extends s s'"
  unfolding extends_def sendMessage_def
  by (auto split: if_splits intro: exI[of _ "\<lambda>_. True"])

lemma extends_fanOut: "extends s (snd (fanOut m ex cs (q, s)))"
proof (induction cs arbitrary: q s)
  case Nil
  show ?case by (simp add: extends_refl)
next
  case (Cons c cs)
  show ?case
  proof (cases "ex = Some c")
    case True
    then show ?thesis using Cons.IH by simp
  next
    case ne: False
    show ?thesis
    proof (cases "sendFails c")
      case True
      let ?s1 = "deleteSession (conn_id c) (close c 1011 ''Failed to broadcast state'' s)"
      have "extends s ?s1"
        by (rule extends_trans[OF extends_close extends_deleteSession])
      from extends_trans[OF this Cons.IH[of ?s1 True]] True ne
      show ?thesis by (simp add: sendMessage_def)
    next
      case False
      let ?s1 = "s\<lparr>trace := trace s @ [Sent (conn_id c) m]\<rparr>"
      have "extends s ?s1"
        by (rule extends_send[of c m s None]) (simp add: sendMessage_def False)
      from extends_trans[OF this Cons.IH[of ?s1 q]] False ne
      show ?thesis by (simp add: sendMessage_def)
    qed
  qed
qed

lemma extends_broadcast:
  "extends s (broadcastMessage m ex s)"
  "extends s (broadcastRoomState s)"
proof (induction m ex s and s rule: broadcastMessage_broadcastRoomState.induct)
  case (1 m ex s)
  obtain q s1 where f: "fanOut m ex (conns s) (False, s) = (q, s1)" by force
  have e1: "extends s s1" using extends_fanOut[of s m ex "conns s" False] f by simp
  show ?case
  proof (cases q)
    case True
    with "1"[OF f[symmetric]] have "extends s1 (broadcastRoomState s1)" by simp
    with e1 True f show ?thesis
      by (simp add: broadcastMessage.simps extends_trans)
  next
    case False
    with e1 f show ?thesis by (simp add: broadcastMessage.simps)
  qed
next
  case (2 s)
  then show ?case
    by (auto simp: broadcastRoomState.simps split: option.splits)
qed

lemma broadcastRoomState_eq: "broadcastRoomState s = broadcastMessage (roomStateMessage s) None s"
  by (simp add: broadcastRoomState.simps roomStateMessage_def split: option.splits)

text \<open>One round of the loop when no channel fails, and what it delivers in general.\<close>

lemma fanOut_healthy:
  "\<forall>c\<in>set cs. \<not> sendFails c \<Longrightarrow>
     fanOut m None cs (q, s) = (q, s\<lparr>trace := trace s @ map (\<lambda>c. Sent (conn_id c) m) cs\<rparr>)"
  by (induction cs arbitrary: s) (auto simp: sendMessage_def)

lemma sent_close: "sent (close c code r s) = sent s"
  by (simp add: close_def sent_def)

lemma fanOut_sent:
  "sent (snd (fanOut m ex cs (q, s))) =
     sent s @ map (\<lambda>c. (conn_id c, m)) (filter (\<lambda>c. \<not> sendFails c \<and> ex \<noteq> Some c) cs)"
  by (induction cs arbitrary: q s)
    (auto simp: sendMessage_def sent_close[unfolded sent_def] deleteSession_def sent_def)

lemma broadcastMessage_healthy:
  assumes "\<forall>c\<in>set (conns s). \<not> sendFails c"
  shows "broadcastMessage m None s = s\<lparr>trace := trace s @ map (\<lambda>c. Sent (conn_id c) m) (conns s)\<rparr>"
  using fanOut_healthy[OF assms, of m False s] by (simp add: broadcastMessage.simps)

lemma fanOut_survivors_healthy:
  assumes "fanOut m None (conns s) (q, s) = (q', s1)"
  shows "\<forall>c\<in>set (conns s1). \<not> sendFails c"
proof
  fix c assume c: "c \<in> set (conns s1)"
  have "conns s1 = filter (\<lambda>d. conn_id d \<notin> conn_id ` {c \<in> set (conns s). sendFails c \<and> None \<noteq> Some c}) (conns s)"
    using fanOut_conns[of m None "conns s" q s] assms by simp
  with c have "c \<in> set (conns s)" "conn_id c \<notin> conn_id ` {c \<in> set (conns s). sendFails c}"
    by auto
  then show "\<not> sendFails c" by auto
qed

text \<open>Two rounds at most: the second one meets no failing channel.\<close>

lemma broadcastMessage_rounds:
  "broadcastMessage m None s =
     (case fanOut m None (conns s) (False, s) of
        (q, s1) \<Rightarrow>
          if q then s1\<lparr>trace := trace s1 @ map (\<lambda>c. Sent (conn_id c) (roomStateMessage s1)) (conns s1)\<rparr>
          else s1)"
proof -
  obtain q s1 where f: "fanOut m None (conns s) (False, s) = (q, s1)" by force
  have "broadcastRoomState s1 =
      s1\<lparr>trace := trace s1 @ map (\<lambda>c. Sent (conn_id c) (roomStateMessage s1)) (conns s1)\<rparr>"
    using broadcastMessage_healthy[OF fanOut_survivors_healthy[OF f]]
    by (simp add: broadcastRoomState_eq)
  with f show ?thesis by (simp add: broadcastMessage.simps)
qed

lemma roomStateMessage_cong:
  "store s' = store s \<Longrightarrow> roomStateMessage s' = roomStateMessage s"
  unfolding roomStateMessage_def getMeetingId_def getUsers_def by (simp split: option.splits)

text \<open>A channel that accepts the message gets it in the first round.\<close>

lemma broadcastMessage_reaches:
  assumes "d \<in> set (conns s)" "\<not> sendFails d"
  shows "(conn_id d, m) \<in> set (delivered s (broadcastMessage m None s))"
proof -
  obtain q s1 where f: "fanOut m None (conns s) (False, s) = (q, s1)" by force
  have s1: "sent s1 = sent s @ map (\<lambda>c. (conn_id c, m)) (filter (\<lambda>c. \<not> sendFails c \<and> None \<noteq> Some c) (conns s))"
    using fanOut_sent[of m None "conns s" False s] f by simp
  have "\<exists>l. sent (broadcastMessage m None s) = sent s1 @ l"
    using f by (auto simp: broadcastMessage_rounds sent_def)
  then obtain l where "sent (broadcastMessage m None s) = sent s @ (map (\<lambda>c. (conn_id c, m)) (filter (\<lambda>c. \<not> sendFails c) (conns s)) @ l)"
    using s1 by auto
  from delivered_append[OF this] assms show ?thesis by auto
qed

text \<open>
  The sessions after a broadcast; the loop of the sweep and the end of a meeting.
\<close>

lemma store_close: "store (close c code r s) = store s"
  by (simp add: close_def)

lemma fanOut_sessions:
  "sessions (store (snd (fanOut m ex cs (q, s)))) =
     filter (\<lambda>p. fst p \<notin> conn_id ` {c \<in> set cs. sendFails c \<and> ex \<noteq> Some c}) (sessions (store s))"
proof (induction cs arbitrary: q s)
  case Nil
  then show ?case by simp
next
  case (Cons c cs)
  show ?case
  proof (cases "ex = Some c")
    case True
    then show ?thesis using Cons.IH[of q s] by (auto intro!: filter_cong)
  next
    case ne: False
    show ?thesis
    proof (cases "sendFails c")
      case True
      then show ?thesis using ne Cons.IH
        by (auto simp: sendMessage_def store_close deleteSession_def AList.delete_eq
            intro!: filter_cong)
    next
      case False
      then show ?thesis using ne Cons.IH
        by (auto simp: sendMessage_def intro!: filter_cong)
    qed
  qed
qed

lemma broadcastMessage_sessions:
  "sessions (store (broadcastMessage m None s)) =
     filter (\<lambda>p. fst p \<notin> conn_id ` {c \<in> set (conns s). sendFails c}) (sessions (store s))"
proof -
  obtain q s1 where f: "fanOut m None (conns s) (False, s) = (q, s1)" by force
  have "store (broadcastMessage m None s) = store s1"
    using f by (simp add: broadcastMessage_rounds)
  then show ?thesis
    using fanOut_sessions[of m None "conns s" False s] f by simp
qed

lemma map_of_filter_keys:
  assumes "map_of xs k = Some v" "k \<notin> F"
  shows "map_of (filter (\<lambda>p. fst p \<notin> F) xs) k = Some v"
  using assms by (induction xs) (auto split: if_splits)

lemma extends_sweep: "extends s (snd (sweep e cn us (k, s)))"
proof (induction us arbitrary: k s)
  case Nil
  show ?case by (simp add: extends_refl)
next
  case (Cons p us)
  obtain i u where p: "p = (i, u)" by force
  show ?case
  proof (cases "case getHeartbeat i s of None \<Rightarrow> True | Some h \<Rightarrow> h + alarmInterval < now e")
    case True
    let ?s1 = "deleteSession i s"
    let ?s2 = "userLeftNotification i ?s1"
    let ?s3 = "case find (\<lambda>c. conn_id c = i) cn of None \<Rightarrow> ?s2 | Some c \<Rightarrow> close c 1011 [] ?s2"
    have "extends s ?s1" by (rule extends_deleteSession)
    then have "extends s ?s2"
      by (rule extends_trans) (simp add: userLeftNotification_def extends_broadcast)
    moreover have "extends ?s2 ?s3"
      by (cases "find (\<lambda>c. conn_id c = i) cn") (simp_all add: extends_refl extends_close)
    ultimately have "extends s ?s3" by (rule extends_trans)
    from extends_trans[OF this Cons.IH[of ?s3 "Suc k"]] True p
    show ?thesis by (simp add: Let_def)
  next
    case False
    with Cons.IH[of s k] p show ?thesis by simp
  qed
qed

lemma endMeeting_effect:
  "store (endMeeting e m s) = deleteAll"
  "alarmTime (endMeeting e m s) = alarmTime s"
  "trace (endMeeting e m s) = trace s"
  "conns (endMeeting e m s) = conns s"
  "getRoomCode s = Some code \<Longrightarrow> code \<noteq> [] \<Longrightarrow>
     reports (endMeeting e m s) = reports s @ [(code, 0, ''done'')]"
  by (auto simp: endMeeting_def Let_def updateMeetingStats_def getMeeting_def getRoomCode_def
      deleteAll_def split: option.splits)

lemma roomStateMessage_without_meetingId:
  "\<not> truthy (getMeetingId s) \<Longrightarrow>
     roomStateMessage s = ErrorMessage ''No meetingId found, closing connection''"
  by (auto simp: roomStateMessage_def truthy_def split: option.splits)

lemma delivered_putSession: "delivered (putSession i u s) s' = delivered s s'"
  by (simp add: delivered_def putSession_def sent_def)

text \<open>
  Neither the sweep nor a broadcast ever removes a heartbeat record; only \<^verbatim>\<open>userLeft\<close>
  and \<^verbatim>\<open>deleteAll\<close> do.
\<close>

lemma heartbeats_sweep:
  "heartbeats (store (snd (sweep e cn us (k, s)))) = heartbeats (store s)"
  using extends_sweep[of s e cn us k] by (simp add: extends_def)

lemma heartbeats_broadcastMessage:
  "heartbeats (store (broadcastMessage m ex s)) = heartbeats (store s)"
  using extends_broadcast(1)[of s m ex] by (simp add: extends_def)

text \<open>
  The test \<^verbatim>\<open>meeting.ended !== null\<close> of \<^verbatim>\<open>trackPeakUserCount\<close> holds of every meeting
  that \<^verbatim>\<open>getMeeting\<close> returns, so a meeting that is found is always reported.
\<close>

lemma getMeeting_ended_not_null: "getMeeting e m s = Some mt \<Longrightarrow> ended mt \<noteq> JNull"
  by (auto simp: getMeeting_def Let_def split: option.splits if_splits)

lemma trackPeakUserCount_reports:
  assumes "getMeetingId s = Some m" "m \<noteq> []" "getMeeting e m s = Some mt"
  shows "snd (trackPeakUserCount e s) =
           snd (updateMeetingStats e (roomId mt) (peakUserCount mt) ''started''
                  (snd (cleanupOldConnections e s)))"
  using assms getMeeting_ended_not_null[OF assms(3)]
  by (simp add: trackPeakUserCount_def Let_def split: prod.splits)

text \<open>The channels that a round of the loop closes: the failing ones that were open.\<close>

lemma closed_deleteSession: "closed (deleteSession i s) = closed s"
  by (simp add: closed_def deleteSession_def)

lemma fanOut_closed:
  "\<exists>ids. closed (snd (fanOut m None cs (q, s))) =
            closed s @ map (\<lambda>i. (i, 1011, ''Failed to broadcast state'')) ids
        \<and> distinct ids
        \<and> set ids = conn_id ` {c \<in> set cs. sendFails c} \<inter> conn_id ` set (conns s)"
proof (induction cs arbitrary: q s)
  case Nil
  show ?case by (intro exI[of _ "[]"]) simp
next
  case (Cons c cs)
  show ?case
  proof (cases "sendFails c")
    case False
    let ?s1 = "s\<lparr>trace := trace s @ [Sent (conn_id c) m]\<rparr>"
    from Cons.IH[of q ?s1] obtain ids where
      "closed (snd (fanOut m None cs (q, ?s1))) =
         closed ?s1 @ map (\<lambda>i. (i, 1011, ''Failed to broadcast state'')) ids"
      "distinct ids"
      "set ids = conn_id ` {c \<in> set cs. sendFails c} \<inter> conn_id ` set (conns ?s1)"
      by blast
    with False show ?thesis
      by (intro exI[of _ ids]) (auto simp: sendMessage_def closed_def)
  next
    case True
    let ?s1 = "deleteSession (conn_id c) (close c 1011 ''Failed to broadcast state'' s)"
    from Cons.IH[of True ?s1] obtain ids where ids:
      "closed (snd (fanOut m None cs (True, ?s1))) =
         closed ?s1 @ map (\<lambda>i. (i, 1011, ''Failed to broadcast state'')) ids"
      "distinct ids"
      "set ids = conn_id ` {c \<in> set cs. sendFails c} \<inter> conn_id ` set (conns ?s1)"
      by blast
    have cs1: "conns ?s1 = filter (\<lambda>d. conn_id d \<noteq> conn_id c) (conns s)"
      by (simp add: conns_deleteSession conns_close)
    show ?thesis
    proof (cases "conn_id c \<in> conn_id ` set (conns s)")
      case op: True
      then have cl: "closed ?s1 = closed s @ [(conn_id c, 1011, ''Failed to broadcast state'')]"
        by (simp add: closed_deleteSession) (simp add: close_def closed_def)
      have "conn_id c \<notin> set ids" using ids(3) cs1 by auto
      moreover have "set (conn_id c # ids) =
          conn_id ` {d \<in> set (c # cs). sendFails d} \<inter> conn_id ` set (conns s)"
        using ids(3) cs1 True op by auto
      ultimately show ?thesis using True ids cl
        by (intro exI[of _ "conn_id c # ids"]) (simp add: sendMessage_def)
    next
      case nop: False
      then have cl: "closed ?s1 = closed s"
        by (simp add: closed_deleteSession) (simp add: close_def)
      have "filter (\<lambda>d. conn_id d \<noteq> conn_id c) (conns s) = conns s"
        using nop by (intro filter_absent_id) simp
      then have "set ids = conn_id ` {d \<in> set (c # cs). sendFails d} \<inter> conn_id ` set (conns s)"
        using ids(3) cs1 True nop by auto
      then show ?thesis using True ids cl
        by (intro exI[of _ ids]) (simp add: sendMessage_def)
    qed
  qed
qed

section \<open>The claims\<close>

subsection \<open>C1: one cycle of the sweep\<close>

text \<open>
  C1. One cycle of \<^verbatim>\<open>cleanupOldConnections\<close> should evict a user exactly when its
  heartbeat record is absent or older than 15 seconds, and an eviction should notify the
  channels, delete the User record and the heartbeat record of the user, and close its
  channel. The source deletes the key \<^verbatim>\<open>session-<id>\<close> only (\<^verbatim>\<open>userLeft\<close> deletes both
  keys). In the room below, at time 100000, Alice (\<^verbatim>\<open>c1\<close>) was last heard at 1000 and Bob
  (\<^verbatim>\<open>c2\<close>) at 99000. The sweep evicts Alice and keeps Bob: both channels get the
  notification, Alice's session goes, her channel is closed with 1011, the roster with Bob
  alone is broadcast. Her heartbeat record is still in the store.
\<close>

theorem cleanupOldConnections_keeps_heartbeat:
  "cleanupOldConnections (exampleEnv 100000 5 ''started'')
     (exampleRoom [(''c1'', alice), (''c2'', bob)] [(''c1'', 1000), (''c2'', 99000)]
        [channel ''c1'', channel ''c2''])
   = (1, \<lparr>store = \<lparr>roomCode = Some ''abc123'', meetingId = Some ''m1'',
                    sessions = [(''c2'', bob)],
                    heartbeats = [(''c1'', 1000), (''c2'', 99000)]\<rparr>,
          alarmTime = None,
          conns = [channel ''c2''],
          trace = [Sent ''c1'' (UserLeftNotification ''c1''),
                   Sent ''c2'' (UserLeftNotification ''c1''),
                   Closed ''c1'' 1011 [],
                   Sent ''c2'' (RoomState ''m1'' [bob])],
          reports = []\<rparr>)"
  by code_simp
subsection \<open>C2: the status of the lifecycle service and \<open>ended\<close>\<close>

text \<open>
  C2. \<^verbatim>\<open>getMeeting\<close> should map the status reported by the lifecycle service to
  \<open>ended\<close>, true exactly for \<^verbatim>\<open>done\<close>, \<^verbatim>\<open>cancelled\<close> and \<^verbatim>\<open>no_show\<close>. The list the
  source tests the status against holds \<^verbatim>\<open>canceled\<close>, with one l, while the type of
  the reply spells \<^verbatim>\<open>cancelled\<close>: for the status \<^verbatim>\<open>cancelled\<close> the meeting comes back
  with \<open>ended\<close> false. The other four statuses are mapped as the claim says.
\<close>

theorem getMeeting_cancelled_not_ended:
  "map_option ended (getMeeting (exampleEnv 0 0 ''cancelled'') ''m1'' (exampleRoom [] [] []))
     = Some (JBool False)
   \<and> map_option ended (getMeeting (exampleEnv 0 0 ''done'') ''m1'' (exampleRoom [] [] []))
     = Some (JBool True)
   \<and> map_option ended (getMeeting (exampleEnv 0 0 ''no_show'') ''m1'' (exampleRoom [] [] []))
     = Some (JBool True)
   \<and> map_option ended (getMeeting (exampleEnv 0 0 ''planned'') ''m1'' (exampleRoom [] [] []))
     = Some (JBool False)
   \<and> map_option ended (getMeeting (exampleEnv 0 0 ''started'') ''m1'' (exampleRoom [] [] []))
     = Some (JBool False)"
  by (simp add: getMeeting_def getRoomCode_def exampleRoom_def exampleEnv_def
      isRoomValid_def serviceReply_def)
subsection \<open>C4: a connection to an invalid room\<close>

text \<open>
  C4, as amended. When the room code of the request fails validation, \<^verbatim>\<open>onConnect\<close>
  stores no User record and no heartbeat record and leaves the roster as it is. What
  happens on the channel depends on \<^verbatim>\<open>connection.send\<close>, which is not guarded there. When
  it succeeds, the message \<^verbatim>\<open>{type: 'error', error: 'Room invalid'}\<close> is delivered and
  then the channel is closed with code 4004: these are the next two entries of the
  trace, in that order, and nothing else changes but the room code, which is stored
  before the validation when none was. When it throws, \<^verbatim>\<open>onConnect\<close> throws: nothing is
  delivered and the channel is not closed. The last case is that of a channel that is
  not in the connection set, where the close does nothing.
\<close>

theorem onConnect_invalid_room:
  fixes e c req s
  defines "s1 \<equiv> (if truthy (extractRoomCode (path req)) \<and> \<not> truthy (getRoomCode s)
                  then s\<lparr>store := (store s)\<lparr>roomCode := extractRoomCode (path req)\<rparr>\<rparr> else s)"
    and "r \<equiv> onConnect e c req s"
  assumes "\<not> ok (isRoomValid e (extractRoomCode (path req)))"
  shows "sessions (store (snd r)) = sessions (store s)
       \<and> heartbeats (store (snd r)) = heartbeats (store s)
       \<and> getUsers (snd r) = getUsers s
       \<and> (sendFails c \<longrightarrow> r = (Some SendError, s1))
       \<and> (\<not> sendFails c \<and> conn_id c \<in> conn_id ` set (conns s) \<longrightarrow>
            r = (None, s1\<lparr>conns := filter (\<lambda>d. conn_id d \<noteq> conn_id c) (conns s),
                          trace := trace s @ [Sent (conn_id c) (ErrorMessage ''Room invalid''),
                                              Closed (conn_id c) 4004 ''Meeting room no longer active'']\<rparr>))
       \<and> (\<not> sendFails c \<and> conn_id c \<notin> conn_id ` set (conns s) \<longrightarrow>
            r = (None, s1\<lparr>trace := trace s @ [Sent (conn_id c) (ErrorMessage ''Room invalid'')]\<rparr>))"
  using assms(3) unfolding r_def s1_def
  by (auto simp: onConnect_def Let_def sendMessage_def close_def getUsers_def)
text \<open>
  A third channel asks for the room \<^verbatim>\<open>/rooms/nowhere\<close>, which the lifecycle service does
  not know.
\<close>

theorem onConnect_invalid_room_witness:
  "\<not> ok (isRoomValid (exampleEnv 100000 5 ''started'') (extractRoomCode [[], ''rooms'', ''nowhere'']))
   \<and> \<not> sendFails (channel ''c3'')
   \<and> conn_id (channel ''c3'')
       \<in> conn_id ` set (conns (exampleRoom [(''c1'', alice)] [(''c1'', 99000)] [channel ''c1'', channel ''c3'']))
   \<and> onConnect (exampleEnv 100000 5 ''started'') (channel ''c3'')
        \<lparr>path = [[], ''rooms'', ''nowhere''], username = Some ''Carol''\<rparr>
        (exampleRoom [(''c1'', alice)] [(''c1'', 99000)] [channel ''c1'', channel ''c3''])
     = (None, \<lparr>store = \<lparr>roomCode = Some ''abc123'', meetingId = Some ''m1'',
                        sessions = [(''c1'', alice)], heartbeats = [(''c1'', 99000)]\<rparr>,
               alarmTime = None, conns = [channel ''c1''],
               trace = [Sent ''c3'' (ErrorMessage ''Room invalid''),
                        Closed ''c3'' 4004 ''Meeting room no longer active''],
               reports = []\<rparr>)"
proof -
  have inv: "\<not> ok (isRoomValid (exampleEnv 100000 5 ''started'')
          (extractRoomCode (path \<lparr>path = [[], ''rooms'', ''nowhere''], username = Some ''Carol''\<rparr>)))"
    by (simp add: isRoomValid_def exampleEnv_def)
  from onConnect_invalid_room[OF inv, of "channel ''c3''"
      "exampleRoom [(''c1'', alice)] [(''c1'', 99000)] [channel ''c1'', channel ''c3'']"] inv
  show ?thesis
    by (simp add: channel_def exampleRoom_def truthy_def getRoomCode_def)
qed
text \<open>
  C4 as it was stated fails on a channel whose send throws: the exception leaves
  \<^verbatim>\<open>onConnect\<close> before \<^verbatim>\<open>connection.close(4004, ...)\<close>, so the channel of the invalid
  room stays in the connection set, with no error message and no close.
\<close>

theorem onConnect_invalid_room_counterexample:
  "\<not> ok (isRoomValid (exampleEnv 100000 5 ''started'') (extractRoomCode [[], ''rooms'', ''nowhere'']))
   \<and> onConnect (exampleEnv 100000 5 ''started'') (brokenChannel ''c3'')
        \<lparr>path = [[], ''rooms'', ''nowhere''], username = Some ''Carol''\<rparr>
        (exampleRoom [(''c1'', alice)] [(''c1'', 99000)] [channel ''c1'', brokenChannel ''c3''])
     = (Some SendError,
        exampleRoom [(''c1'', alice)] [(''c1'', 99000)] [channel ''c1'', brokenChannel ''c3''])"
  by code_simp
subsection \<open>C5: the report of the peak\<close>

text \<open>
  C5. \<^verbatim>\<open>trackPeakUserCount\<close> should report \<^verbatim>\<open>{peakUsers, status: 'started'}\<close> only when
  the roster is larger than the recorded peak or the meeting is flagged ended. The source
  tests \<^verbatim>\<open>meeting.ended !== null\<close>, and \<open>ended\<close> is a boolean: the test always holds. In
  the room below the service records a peak of 5 and the status \<^verbatim>\<open>started\<close>, so the
  meeting is not ended, and the roster has one user; the report is sent all the same. Its
  \<open>peakUsers\<close> is the stored peak 5, as the claim says.
\<close>

theorem trackPeakUserCount_reports_below_peak:
  "getMeeting (exampleEnv 100000 5 ''started'') ''m1''
       (exampleRoom [(''c1'', alice)] [(''c1'', 99000)] [channel ''c1''])
     = Some \<lparr>roomId = ''abc123'', ended = JBool False, peakUserCount = 5, meeting_id = ''m1''\<rparr>
   \<and> trackPeakUserCount (exampleEnv 100000 5 ''started'')
       (exampleRoom [(''c1'', alice)] [(''c1'', 99000)] [channel ''c1''])
     = (Some ''m1'',
        (exampleRoom [(''c1'', alice)] [(''c1'', 99000)] [channel ''c1''])
          \<lparr>reports := [(''abc123'', 5, ''started'')]\<rparr>)"
  by code_simp
subsection \<open>C6: a send that fails during a broadcast\<close>

text \<open>
  C6. A channel whose send fails during \<^verbatim>\<open>broadcastMessage\<close> should be closed with 1011
  and lose its User record and its heartbeat record, the other channels should still get
  the message, and the roster should be broadcast again. The source deletes the key
  \<^verbatim>\<open>session-<id>\<close> only. Below, the send to \<^verbatim>\<open>c1\<close> fails: the channel is closed with
  1011, its session is deleted, \<^verbatim>\<open>c2\<close> gets the message and then the roster without
  \<^verbatim>\<open>c1\<close>. The heartbeat record of \<^verbatim>\<open>c1\<close> is still in the store.
\<close>

theorem broadcastMessage_keeps_heartbeat:
  "broadcastMessage (UserLeftNotification ''c9'') None
     (exampleRoom [(''c1'', alice), (''c2'', bob)] [(''c1'', 99000), (''c2'', 99000)]
        [brokenChannel ''c1'', channel ''c2''])
   = \<lparr>store = \<lparr>roomCode = Some ''abc123'', meetingId = Some ''m1'',
                sessions = [(''c2'', bob)],
                heartbeats = [(''c1'', 99000), (''c2'', 99000)]\<rparr>,
      alarmTime = None,
      conns = [channel ''c2''],
      trace = [Closed ''c1'' 1011 ''Failed to broadcast state'',
               Sent ''c2'' (UserLeftNotification ''c9''),
               Sent ''c2'' (RoomState ''m1'' [bob])],
      reports = []\<rparr>"
  by code_simp
subsection \<open>C7: a direct message\<close>

subsection \<open>C8: muting a user that is not there\<close>

text \<open>
  C8. A \<^verbatim>\<open>muteUser{id}\<close> whose id is the id of no open channel leaves the store, the
  open channels and the closes as they are. Nothing is delivered, except that a sender
  with no stored User record is sent the error of the handler (the source reads the name
  of the sender for its warning); so no \<^verbatim>\<open>muteMic\<close> and no roster is sent.
\<close>

theorem onMessage_muteUser_unknown:
  fixes e c i s
  defines "s' \<equiv> snd (onMessage e c (Text (Some (MuteUser i))) s)"
  assumes "find (\<lambda>d. conn_id d = i) (conns s) = None"
  shows "s' = (if getSession (conn_id c) s = None \<and> \<not> sendFails c
               then s\<lparr>trace := trace s @ [Sent (conn_id c) (ErrorMessage (stack TypeError))]\<rparr>
               else s)
         \<and> store s' = store s \<and> conns s' = conns s \<and> closed s' = closed s
         \<and> (\<forall>x\<in>set (delivered s s'). snd x = ErrorMessage (stack TypeError))"
proof -
  have eq: "s' = (if getSession (conn_id c) s = None \<and> \<not> sendFails c
               then s\<lparr>trace := trace s @ [Sent (conn_id c) (ErrorMessage (stack TypeError))]\<rparr>
               else s)"
    using assms(2) unfolding s'_def
    by (cases "getSession (conn_id c) s") (auto simp: onMessage_def sendMessage_def)
  then show ?thesis
    by (auto simp: delivered_def sent_def closed_def)
qed
theorem onMessage_muteUser_unknown_witness:
  "find (\<lambda>d. conn_id d = ''c7'')
       (conns (exampleRoom [(''c1'', alice), (''c2'', bob)] [] [channel ''c1'', channel ''c2'']))
     = None
   \<and> snd (onMessage (exampleEnv 100000 5 ''started'') (channel ''c1'') (Text (Some (MuteUser ''c7'')))
       (exampleRoom [(''c1'', alice), (''c2'', bob)] [] [channel ''c1'', channel ''c2'']))
     = exampleRoom [(''c1'', alice), (''c2'', bob)] [] [channel ''c1'', channel ''c2'']"
  using onMessage_muteUser_unknown[of "''c7''"
      "exampleRoom [(''c1'', alice), (''c2'', bob)] [] [channel ''c1'', channel ''c2'']"
      "exampleEnv 100000 5 ''started''" "channel ''c1''"]
  by (simp add: getSession_def exampleRoom_def channel_def)
subsection \<open>C9: the round trip of a user update\<close>

text \<open>
  C9. \<^verbatim>\<open>userUpdate{user}\<close> writes the payload under the session key of the sender, and
  the list of users that \<^verbatim>\<open>broadcastRoomState\<close> then reads back from the store holds the
  payload under that key, unchanged. With a meeting id in the store that list is the
  roster of the \<^verbatim>\<open>roomState\<close> message, which every open channel that accepts the send
  receives. The record is still the payload after the handler, unless the send to the
  sender's own channel failed.
\<close>

theorem userUpdate_round_trip:
  fixes e c u s
  defines "r \<equiv> onMessage e c (Text (Some (UserUpdate u))) s"
    and "s1 \<equiv> putSession (conn_id c) u s"
  shows "fst r = None
       \<and> getSession (conn_id c) s1 = Some u
       \<and> map_of (getUsers s1) (conn_id c) = Some u
       \<and> u \<in> set (map snd (getUsers s1))
       \<and> (\<forall>m. getMeetingId s = Some m \<and> m \<noteq> [] \<longrightarrow>
             roomStateMessage s1 = RoomState m (map snd (getUsers s1)))
       \<and> (\<forall>d\<in>set (conns s). \<not> sendFails d \<longrightarrow>
             (conn_id d, roomStateMessage s1) \<in> set (delivered s (snd r)))
       \<and> ((\<forall>d\<in>set (conns s). sendFails d \<longrightarrow> conn_id d \<noteq> conn_id c) \<longrightarrow>
             getSession (conn_id c) (snd r) = Some u)"
proof -
  have r: "r = (None, broadcastMessage (roomStateMessage s1) None s1)"
    unfolding r_def s1_def by (simp add: onMessage_def broadcastRoomState_eq)
  have stored: "map_of (getUsers s1) (conn_id c) = Some u"
    unfolding s1_def by (simp add: getUsers_def putSession_def update_conv')
  then have mem: "u \<in> set (map snd (getUsers s1))"
    by (force dest: map_of_SomeD)
  have msg: "\<forall>m. getMeetingId s = Some m \<and> m \<noteq> [] \<longrightarrow>
      roomStateMessage s1 = RoomState m (map snd (getUsers s1))"
    unfolding s1_def by (simp add: roomStateMessage_def getMeetingId_def putSession_def)
  have cs: "conns s1 = conns s" unfolding s1_def by (simp add: putSession_def)
  have reach: "\<forall>d\<in>set (conns s). \<not> sendFails d \<longrightarrow>
      (conn_id d, roomStateMessage s1) \<in> set (delivered s (snd r))"
  proof (intro ballI impI)
    fix d assume "d \<in> set (conns s)" "\<not> sendFails d"
    then have "d \<in> set (conns s1)" by (simp add: cs)
    from broadcastMessage_reaches[OF this \<open>\<not> sendFails d\<close>, of "roomStateMessage s1"]
    show "(conn_id d, roomStateMessage s1) \<in> set (delivered s (snd r))"
      using r by (simp add: s1_def delivered_putSession)
  qed
  have kept: "getSession (conn_id c) (snd r) = Some u"
    if "\<forall>d\<in>set (conns s). sendFails d \<longrightarrow> conn_id d \<noteq> conn_id c"
  proof -
    from that have "conn_id c \<notin> conn_id ` {d \<in> set (conns s1). sendFails d}"
      by (auto simp: cs)
    from map_of_filter_keys[OF _ this, of "getUsers s1" u] stored r
    show ?thesis
      by (simp add: getSession_def broadcastMessage_sessions getUsers_def)
  qed
  from r stored mem msg reach kept show ?thesis
    by (simp add: getSession_def getUsers_def)
qed
theorem userUpdate_round_trip_witness:
  "getMeetingId (exampleRoom [(''c1'', alice), (''c2'', bob)] [] [channel ''c1'', channel ''c2''])
     = Some ''m1''
   \<and> channel ''c2'' \<in> set (conns (exampleRoom [(''c1'', alice), (''c2'', bob)] [] [channel ''c1'', channel ''c2'']))
   \<and> \<not> sendFails (channel ''c2'')
   \<and> (''c2'', RoomState ''m1'' [alice\<lparr>raisedHand := True\<rparr>, bob])
       \<in> set (delivered (exampleRoom [(''c1'', alice), (''c2'', bob)] [] [channel ''c1'', channel ''c2''])
            (snd (onMessage (exampleEnv 100000 5 ''started'') (channel ''c1'')
               (Text (Some (UserUpdate (alice\<lparr>raisedHand := True\<rparr>))))
               (exampleRoom [(''c1'', alice), (''c2'', bob)] [] [channel ''c1'', channel ''c2'']))))
   \<and> getSession ''c1''
        (snd (onMessage (exampleEnv 100000 5 ''started'') (channel ''c1'')
               (Text (Some (UserUpdate (alice\<lparr>raisedHand := True\<rparr>))))
               (exampleRoom [(''c1'', alice), (''c2'', bob)] [] [channel ''c1'', channel ''c2''])))
       = Some (alice\<lparr>raisedHand := True\<rparr>)"
  using userUpdate_round_trip[of "exampleEnv 100000 5 ''started''" "channel ''c1''"
      "alice\<lparr>raisedHand := True\<rparr>"
      "exampleRoom [(''c1'', alice), (''c2'', bob)] [] [channel ''c1'', channel ''c2'']"]
  by (simp add: getMeetingId_def getUsers_def putSession_def roomStateMessage_def
      exampleRoom_def channel_def)
subsection \<open>C10: the roster of a room without a meeting id\<close>

text \<open>
  C10, as amended. With no meeting id in the store, \<^verbatim>\<open>broadcastRoomState\<close> sends the
  error \<^verbatim>\<open>No meetingId found, closing connection\<close> and never a roster. Let \<open>F\<close> be the
  ids of the open channels whose send throws. Every open channel that accepts the send
  receives the error once, in the order of the connection set; if \<open>F\<close> is not empty, the
  channels that are left receive it a second time. The channels closed are exactly those
  with an id in \<open>F\<close>, each once, with code 1011; the records deleted are exactly the User
  records with a key in \<open>F\<close>; the heartbeat records, the room code, the alarm and the
  reports are unchanged. So when no send throws, no channel is closed and no record is
  deleted.
\<close>

theorem broadcastRoomState_without_meetingId:
  fixes s
  defines "s' \<equiv> broadcastRoomState s"
    and "noMeetingId \<equiv> ErrorMessage ''No meetingId found, closing connection''"
    and "F \<equiv> conn_id ` {c \<in> set (conns s). sendFails c}"
  assumes "\<not> truthy (getMeetingId s)"
  shows "store s' = (store s)\<lparr>sessions := filter (\<lambda>p. fst p \<notin> F) (sessions (store s))\<rparr>
       \<and> conns s' = filter (\<lambda>c. conn_id c \<notin> F) (conns s)
       \<and> alarmTime s' = alarmTime s
       \<and> reports s' = reports s
       \<and> delivered s s' =
           map (\<lambda>c. (conn_id c, noMeetingId)) (filter (\<lambda>c. \<not> sendFails c) (conns s))
           @ (if F = {} then []
              else map (\<lambda>c. (conn_id c, noMeetingId)) (filter (\<lambda>c. conn_id c \<notin> F) (conns s)))
       \<and> (\<exists>ids. closed s' = closed s @ map (\<lambda>i. (i, 1011, ''Failed to broadcast state'')) ids
                \<and> distinct ids \<and> set ids = F)"
proof -
  have m: "roomStateMessage s = noMeetingId"
    using assms(4) unfolding noMeetingId_def by (rule roomStateMessage_without_meetingId)
  obtain q s1 where f: "fanOut noMeetingId None (conns s) (False, s) = (q, s1)" by force
  have ex: "extends s s1" using extends_fanOut[of s noMeetingId None "conns s" False] f by simp
  then have "getMeetingId s1 = getMeetingId s" by (simp add: extends_def getMeetingId_def)
  with assms(4) have m1: "roomStateMessage s1 = noMeetingId"
    unfolding noMeetingId_def by (simp add: roomStateMessage_without_meetingId)
  have q: "q = (F \<noteq> {})"
    using fanOut_quit[of noMeetingId None "conns s" False s] f unfolding F_def by auto
  have c1: "conns s1 = filter (\<lambda>c. conn_id c \<notin> F) (conns s)"
    using fanOut_conns[of noMeetingId None "conns s" False s] f unfolding F_def by simp
  have se1: "sessions (store s1) = filter (\<lambda>p. fst p \<notin> F) (sessions (store s))"
    using fanOut_sessions[of noMeetingId None "conns s" False s] f unfolding F_def by simp
  have st1: "store s1 = (store s)\<lparr>sessions := filter (\<lambda>p. fst p \<notin> F) (sessions (store s))\<rparr>"
    using ex se1 by (simp add: extends_def)
  have sn1: "sent s1 = sent s @ map (\<lambda>c. (conn_id c, noMeetingId)) (filter (\<lambda>c. \<not> sendFails c) (conns s))"
    using fanOut_sent[of noMeetingId None "conns s" False s] f by simp
  from fanOut_closed[of noMeetingId "conns s" False s] f obtain ids where ids:
    "closed s1 = closed s @ map (\<lambda>i. (i, 1011, ''Failed to broadcast state'')) ids"
    "distinct ids" "set ids = F"
    unfolding F_def by auto
  have s': "s' = (if q then s1\<lparr>trace := trace s1 @ map (\<lambda>c. Sent (conn_id c) noMeetingId) (conns s1)\<rparr> else s1)"
    unfolding s'_def using f m m1 by (simp add: broadcastRoomState_eq broadcastMessage_rounds)
  have a: "store s' = (store s)\<lparr>sessions := filter (\<lambda>p. fst p \<notin> F) (sessions (store s))\<rparr>"
    using s' st1 by simp
  have b: "conns s' = filter (\<lambda>c. conn_id c \<notin> F) (conns s)"
    using s' c1 by simp
  have c: "alarmTime s' = alarmTime s" "reports s' = reports s"
    using s' ex by (simp_all add: extends_def)
  have "sent s' = sent s @ (map (\<lambda>c. (conn_id c, noMeetingId)) (filter (\<lambda>c. \<not> sendFails c) (conns s))
           @ (if F = {} then []
              else map (\<lambda>c. (conn_id c, noMeetingId)) (filter (\<lambda>c. conn_id c \<notin> F) (conns s))))"
    using s' sn1 c1 q by (simp add: sent_def)
  then have d: "delivered s s' =
           map (\<lambda>c. (conn_id c, noMeetingId)) (filter (\<lambda>c. \<not> sendFails c) (conns s))
           @ (if F = {} then []
              else map (\<lambda>c. (conn_id c, noMeetingId)) (filter (\<lambda>c. conn_id c \<notin> F) (conns s)))"
    by (rule delivered_append)
  have "closed s' = closed s1" using s' by (simp add: closed_def)
  with ids have e: "\<exists>ids. closed s' = closed s @ map (\<lambda>i. (i, 1011, ''Failed to broadcast state'')) ids
                \<and> distinct ids \<and> set ids = F"
    by auto
  from a b c d e show ?thesis by blast
qed
text \<open>
  A room where the send to \<^verbatim>\<open>c1\<close> throws: \<^verbatim>\<open>c2\<close> is sent the error twice and keeps its
  record.
\<close>

theorem broadcastRoomState_without_meetingId_witness:
  "\<not> truthy (getMeetingId (withoutMeeting (exampleRoom [(''c1'', alice), (''c2'', bob)] [(''c1'', 99000)]
        [brokenChannel ''c1'', channel ''c2''])))
   \<and> conns (broadcastRoomState (withoutMeeting (exampleRoom [(''c1'', alice), (''c2'', bob)] [(''c1'', 99000)]
        [brokenChannel ''c1'', channel ''c2''])))
     = [channel ''c2'']
   \<and> sessions (store (broadcastRoomState (withoutMeeting (exampleRoom [(''c1'', alice), (''c2'', bob)]
        [(''c1'', 99000)] [brokenChannel ''c1'', channel ''c2'']))))
     = [(''c2'', bob)]
   \<and> delivered (withoutMeeting (exampleRoom [(''c1'', alice), (''c2'', bob)] [(''c1'', 99000)]
        [brokenChannel ''c1'', channel ''c2'']))
       (broadcastRoomState (withoutMeeting (exampleRoom [(''c1'', alice), (''c2'', bob)] [(''c1'', 99000)]
        [brokenChannel ''c1'', channel ''c2''])))
     = [(''c2'', ErrorMessage ''No meetingId found, closing connection''),
        (''c2'', ErrorMessage ''No meetingId found, closing connection'')]"
proof -
  define s where "s = withoutMeeting (exampleRoom [(''c1'', alice), (''c2'', bob)] [(''c1'', 99000)]
        [brokenChannel ''c1'', channel ''c2''])"
  have h: "\<not> truthy (getMeetingId s)"
    by (simp add: s_def truthy_def getMeetingId_def withoutMeeting_def exampleRoom_def)
  have c: "conns s = [brokenChannel ''c1'', channel ''c2'']"
    and se: "sessions (store s) = [(''c1'', alice), (''c2'', bob)]"
    by (simp_all add: s_def withoutMeeting_def exampleRoom_def)
  have F: "conn_id ` {c \<in> set (conns s). sendFails c} = {''c1''}"
    unfolding c by (auto simp: channel_def brokenChannel_def
        intro!: image_eqI[where x = "\<lparr>conn_id = ''c1'', sendFails = True\<rparr>"])
  have "conns (broadcastRoomState s) = [channel ''c2'']
      \<and> sessions (store (broadcastRoomState s)) = [(''c2'', bob)]
      \<and> delivered s (broadcastRoomState s)
          = [(''c2'', ErrorMessage ''No meetingId found, closing connection''),
             (''c2'', ErrorMessage ''No meetingId found, closing connection'')]"
    using broadcastRoomState_without_meetingId[OF h] unfolding F
    by (simp add: c se channel_def brokenChannel_def)
  with h show ?thesis unfolding s_def by simp
qed
text \<open>
  C10 as it was stated fails when a send fails: the broadcast of the error closes that
  channel with 1011 and deletes its User record, as every broadcast does.
\<close>

theorem broadcastRoomState_without_meetingId_counterexample:
  "\<not> truthy (getMeetingId (withoutMeeting (exampleRoom [(''c1'', alice)] [(''c1'', 99000)] [brokenChannel ''c1''])))
   \<and> broadcastRoomState (withoutMeeting (exampleRoom [(''c1'', alice)] [(''c1'', 99000)] [brokenChannel ''c1'']))
     = \<lparr>store = \<lparr>roomCode = Some ''abc123'', meetingId = None, sessions = [],
                  heartbeats = [(''c1'', 99000)]\<rparr>,
        alarmTime = None, conns = [],
        trace = [Closed ''c1'' 1011 ''Failed to broadcast state''], reports = []\<rparr>"
  by code_simp
end
